theory Spec2Isabelle
  imports Main "HOL-Library.AList"
begin

section \<open>Data model of app/core/websocket\_manager.py\<close>

text \<open>
  User and chat identifiers are Python ints. A \<^verbatim>\<open>WebSocket\<close> object is known only by its
  identity, so it is a number here. The three dictionaries of \<^verbatim>\<open>ConnectionManager\<close> are
  association lists in insertion order (the order a Python dict iterates in); a Python
  \<^verbatim>\<open>Set[int]\<close> is a list of its elements, and only its set of elements is ever used in
  the statements below, since Python fixes no iteration order for a set.
\<close>

type_synonym user_id = int
type_synonym chat_id = int
type_synonym websocket = nat

text \<open>
  The dictionaries that are serialised and written to a socket. The \<^verbatim>\<open>timestamp\<close> entry
  (the wall clock) is left out of every event.
\<close>

datatype event =
    Typing chat_id user_id bool
  | UserStatus user_id string
  | NewMessage chat_id user_id string
  | MessageRead int chat_id user_id
  | PlainMessage string user_id

fun ev_type :: "event \<Rightarrow> string" where
  "ev_type (Typing c u b) = ''typing''"
| "ev_type (UserStatus u st) = ''user_status''"
| "ev_type (NewMessage c u txt) = ''new_message''"
| "ev_type (MessageRead m c u) = ''message_read''"
| "ev_type (PlainMessage txt u) = ''message''"

text \<open>
  \<open>redis\<close> is \<open>None\<close> when \<^verbatim>\<open>get_redis()\<close> returned no client, otherwise the hash
  \<^verbatim>\<open>user_status\<close>. \<open>sent\<close> is the trace of the texts that \<^verbatim>\<open>send_text\<close> wrote
  successfully, oldest first: it is the effect of the manager on the sockets.
\<close>

record manager =
  active_connections :: "(user_id \<times> websocket list) list"
  chat_rooms :: "(chat_id \<times> user_id list) list"
  typing_users :: "(chat_id \<times> user_id list) list"
  redis :: "(user_id \<times> string) list option"
  sent :: "(websocket \<times> event) list"

definition init :: manager where
  "init = \<lparr>active_connections = [], chat_rooms = [], typing_users = [],
            redis = None, sent = []\<rparr>"

datatype error = TransportFailure | ValueError | AttributeError

text \<open>Python's \<^verbatim>\<open>set.add\<close>; \<^verbatim>\<open>set.remove\<close> and \<^verbatim>\<open>set.discard\<close> are \<open>removeAll\<close>.\<close>

definition set_add :: "'a \<Rightarrow> 'a list \<Rightarrow> 'a list" where
  "set_add x xs = (if x \<in> set xs then xs else xs @ [x])"

text \<open>The value stored under a key, the empty collection when the key is absent.\<close>

definition entry :: "('k \<times> 'a list) list \<Rightarrow> 'k \<Rightarrow> 'a list" where
  "entry al k = (case map_of al k of None \<Rightarrow> [] | Some xs \<Rightarrow> xs)"

section \<open>ConnectionManager\<close>

text \<open>
  Whether a write to a socket raises is decided by the transport, not by the manager:
  every operation that writes takes the predicate \<open>fails\<close> of the sockets whose
  \<^verbatim>\<open>send_text\<close> raises during that call.
\<close>

definition send_text :: "(websocket \<Rightarrow> bool) \<Rightarrow> websocket \<Rightarrow> event \<Rightarrow> error + (websocket \<times> event)" where
  "send_text fails c m = (if fails c then Inl TransportFailure else Inr (c, m))"

text \<open>
  The first loop of \<^verbatim>\<open>send_personal_message\<close>: try the write on each connection, collect
  the connections whose write raised. The result is (texts written, disconnected\_connections).
\<close>

definition send_loop ::
  "(websocket \<Rightarrow> bool) \<Rightarrow> event \<Rightarrow> websocket list \<Rightarrow> (websocket \<times> event) list \<times> websocket list" where
  "send_loop fails m cs =
     fold (\<lambda>c (out, disconnected).
             case send_text fails c m of
               Inr w \<Rightarrow> (out @ [w], disconnected)
             | Inl e \<Rightarrow> (out, disconnected @ [c]))
          cs ([], [])"

definition send_personal_message :: "(websocket \<Rightarrow> bool) \<Rightarrow> manager \<Rightarrow> user_id \<Rightarrow> event \<Rightarrow> manager" where
  "send_personal_message fails s u m =
     (case map_of (active_connections s) u of
        None \<Rightarrow> s
      | Some cs \<Rightarrow>
          (case send_loop fails m cs of
             (out, disconnected) \<Rightarrow>
               s\<lparr>active_connections :=
                    AList.update u (fold remove1 disconnected cs) (active_connections s),
                  sent := sent s @ out\<rparr>))"

text \<open>
  \<^verbatim>\<open>if exclude_user_id and user_id == exclude_user_id: continue\<close>: the first conjunct is
  Python truthiness, so an excluded id of \<open>0\<close> excludes nobody.
\<close>

definition skipped :: "user_id option \<Rightarrow> user_id \<Rightarrow> bool" where
  "skipped exclude_user_id u =
     (case exclude_user_id of None \<Rightarrow> False | Some e \<Rightarrow> e \<noteq> 0 \<and> u = e)"

definition broadcast_to_chat ::
  "(websocket \<Rightarrow> bool) \<Rightarrow> manager \<Rightarrow> chat_id \<Rightarrow> event \<Rightarrow> user_id option \<Rightarrow> manager" where
  "broadcast_to_chat fails s c m exclude_user_id =
     (case map_of (chat_rooms s) c of
        None \<Rightarrow> s
      | Some us \<Rightarrow>
          fold (\<lambda>u s'. if skipped exclude_user_id u then s'
                        else send_personal_message fails s' u m) us s)"

definition broadcast_typing_status ::
  "(websocket \<Rightarrow> bool) \<Rightarrow> manager \<Rightarrow> chat_id \<Rightarrow> user_id \<Rightarrow> bool \<Rightarrow> manager" where
  "broadcast_typing_status fails s c u is_typing =
     broadcast_to_chat fails s c (Typing c u is_typing) (Some u)"

definition set_typing_status ::
  "(websocket \<Rightarrow> bool) \<Rightarrow> manager \<Rightarrow> chat_id \<Rightarrow> user_id \<Rightarrow> bool \<Rightarrow> manager" where
  "set_typing_status fails s c u is_typing =
     (let cur = entry (typing_users s) c;
          new = (if is_typing then set_add u cur else removeAll u cur)
      in broadcast_typing_status fails
           (s\<lparr>typing_users := AList.update c new (typing_users s)\<rparr>) c u is_typing)"

definition set_user_online :: "manager \<Rightarrow> user_id \<Rightarrow> bool \<Rightarrow> manager" where
  "set_user_online s u is_online =
     (case redis s of
        None \<Rightarrow> s
      | Some h \<Rightarrow>
          s\<lparr>redis := Some (AList.update u (if is_online then ''online'' else ''offline'') h)\<rparr>)"

definition broadcast_user_status ::
  "(websocket \<Rightarrow> bool) \<Rightarrow> manager \<Rightarrow> user_id \<Rightarrow> string \<Rightarrow> manager" where
  "broadcast_user_status fails s u status =
     fold (\<lambda>v s'. if v \<noteq> u then send_personal_message fails s' v (UserStatus u status) else s')
          (map fst (active_connections s)) s"

definition connect :: "(websocket \<Rightarrow> bool) \<Rightarrow> manager \<Rightarrow> websocket \<Rightarrow> user_id \<Rightarrow> manager" where
  "connect fails s w u =
     (let s1 = s\<lparr>active_connections :=
                   AList.update u (entry (active_connections s) u @ [w]) (active_connections s)\<rparr>;
          s2 = set_user_online s1 u True
      in broadcast_user_status fails s2 u ''online'')"

definition join_chat_room :: "manager \<Rightarrow> user_id \<Rightarrow> chat_id \<Rightarrow> manager" where
  "join_chat_room s u c =
     s\<lparr>chat_rooms := AList.update c (set_add u (entry (chat_rooms s) c)) (chat_rooms s)\<rparr>"

definition leave_chat_room :: "(websocket \<Rightarrow> bool) \<Rightarrow> manager \<Rightarrow> user_id \<Rightarrow> chat_id \<Rightarrow> manager" where
  "leave_chat_room fails s u c =
     (case map_of (chat_rooms s) c of
        None \<Rightarrow> s
      | Some us \<Rightarrow>
          if u \<in> set us then
            (let s1 = s\<lparr>chat_rooms := AList.update c (removeAll u us) (chat_rooms s)\<rparr>
             in if u \<in> set (entry (typing_users s1) c)
                then set_typing_status fails s1 c u False else s1)
          else s)"

text \<open>
  \<^verbatim>\<open>disconnect(user_id, websocket=None)\<close>, first part (the block under
  \<^verbatim>\<open>if user_id in self.active_connections\<close>). \<^verbatim>\<open>list.remove\<close> raises ValueError when
  the socket is not in the list; nothing has been changed at that point, so the error
  carries no state.
\<close>

definition drop_connection ::
  "(websocket \<Rightarrow> bool) \<Rightarrow> manager \<Rightarrow> user_id \<Rightarrow> websocket option \<Rightarrow> error + manager" where
  "drop_connection fails s u websocket =
     (case map_of (active_connections s) u of
        None \<Rightarrow> Inr s
      | Some cs \<Rightarrow>
          (case (case websocket of
                   None \<Rightarrow> Inr cs
                 | Some w \<Rightarrow> if w \<in> set cs then Inr (remove1 w cs) else Inl ValueError) of
             Inl e \<Rightarrow> Inl e
           | Inr cs' \<Rightarrow>
               if cs' = [] then
                 Inr (broadcast_user_status fails
                        (set_user_online
                           (s\<lparr>active_connections := AList.delete u (active_connections s)\<rparr>)
                           u False)
                        u ''offline'')
               else Inr (s\<lparr>active_connections := AList.update u cs' (active_connections s)\<rparr>)))"

text \<open>
  The two purge loops of \<^verbatim>\<open>disconnect\<close>, one step per key of the snapshot of keys.
  They stand at the level of the method body: they run whether or not the user has
  connections left.
\<close>

definition purge_room :: "user_id \<Rightarrow> chat_id \<Rightarrow> (chat_id \<times> user_id list) list \<Rightarrow> (chat_id \<times> user_id list) list" where
  "purge_room u c rooms =
     (case map_of rooms c of
        None \<Rightarrow> rooms
      | Some us \<Rightarrow>
          if u \<in> set us then
            (if removeAll u us = [] then AList.delete c rooms
             else AList.update c (removeAll u us) rooms)
          else rooms)"

definition purge_rooms :: "user_id \<Rightarrow> manager \<Rightarrow> manager" where
  "purge_rooms u s = s\<lparr>chat_rooms := fold (purge_room u) (map fst (chat_rooms s)) (chat_rooms s)\<rparr>"

definition purge_typing :: "(websocket \<Rightarrow> bool) \<Rightarrow> user_id \<Rightarrow> chat_id \<Rightarrow> manager \<Rightarrow> manager" where
  "purge_typing fails u c s =
     (case map_of (typing_users s) c of
        None \<Rightarrow> s
      | Some us \<Rightarrow>
          if u \<in> set us then
            broadcast_typing_status fails
              (s\<lparr>typing_users := AList.update c (removeAll u us) (typing_users s)\<rparr>) c u False
          else s)"

definition purge_typings :: "(websocket \<Rightarrow> bool) \<Rightarrow> user_id \<Rightarrow> manager \<Rightarrow> manager" where
  "purge_typings fails u s = fold (purge_typing fails u) (map fst (typing_users s)) s"

definition disconnect ::
  "(websocket \<Rightarrow> bool) \<Rightarrow> manager \<Rightarrow> user_id \<Rightarrow> websocket option \<Rightarrow> error + manager" where
  "disconnect fails s u websocket =
     (case drop_connection fails s u websocket of
        Inl e \<Rightarrow> Inl e
      | Inr s1 \<Rightarrow> Inr (purge_typings fails u (purge_rooms u s1)))"

section \<open>WebSocketManager\<close>

text \<open>
  The parsed inbound dictionary, read through \<^verbatim>\<open>data.get\<close>: a field is \<open>None\<close> when the
  key is absent or null. The fields have the types the manager declares for them (ints for
  ids, a string for the content, a bool for the typing flag).
\<close>

record inbound =
  in_type :: "string option"
  in_chat_id :: "int option"
  in_content :: "string option"
  in_is_typing :: "bool option"
  in_message_id :: "int option"

text \<open>Python truthiness of an optional int and of an optional string.\<close>

definition truthy_int :: "int option \<Rightarrow> bool" where
  "truthy_int x = (case x of None \<Rightarrow> False | Some i \<Rightarrow> i \<noteq> 0)"

definition truthy_str :: "string option \<Rightarrow> bool" where
  "truthy_str x = (case x of None \<Rightarrow> False | Some t \<Rightarrow> t \<noteq> [])"

definition handle_message :: "(websocket \<Rightarrow> bool) \<Rightarrow> manager \<Rightarrow> user_id \<Rightarrow> inbound \<Rightarrow> manager" where
  "handle_message fails s u d =
     (if in_type d = Some ''join_chat'' then
        (if truthy_int (in_chat_id d) then join_chat_room s u (the (in_chat_id d)) else s)
      else if in_type d = Some ''leave_chat'' then
        (if truthy_int (in_chat_id d) then leave_chat_room fails s u (the (in_chat_id d)) else s)
      else if in_type d = Some ''typing'' then
        (case in_chat_id d of
           Some c \<Rightarrow>
             set_typing_status fails s c u (case in_is_typing d of None \<Rightarrow> False | Some b \<Rightarrow> b)
         | None \<Rightarrow> s)
      else if in_type d = Some ''message'' then
        (if truthy_int (in_chat_id d) \<and> truthy_str (in_content d) then
           broadcast_to_chat fails s (the (in_chat_id d))
             (NewMessage (the (in_chat_id d)) u (the (in_content d))) None
         else s)
      else if in_type d = Some ''message_read'' then
        (if truthy_int (in_message_id d) \<and> truthy_int (in_chat_id d) then
           broadcast_to_chat fails s (the (in_chat_id d))
             (MessageRead (the (in_message_id d)) (the (in_chat_id d)) u) (Some u)
         else s)
      else s)"

section \<open>The websocket endpoint of app/main.py\<close>

text \<open>
  What \<^verbatim>\<open>json.loads\<close> makes of a received text: it raises JSONDecodeError, or returns a
  value that is not a dictionary, or returns a dictionary. The JSON grammar itself is the
  library's and is not modelled.
\<close>

datatype payload = NotJson string | JsonOther | JsonObject inbound

text \<open>
  One turn of the receive loop. A dictionary goes to \<^verbatim>\<open>handle_message\<close>; a text that is
  not JSON is echoed through \<^verbatim>\<open>send_personal_message\<close>; on any other JSON value
  \<^verbatim>\<open>data.get\<close> raises AttributeError, which leaves the loop.
\<close>

definition on_text :: "(websocket \<Rightarrow> bool) \<Rightarrow> manager \<Rightarrow> user_id \<Rightarrow> payload \<Rightarrow> error + manager" where
  "on_text fails s u p =
     (case p of
        JsonObject d \<Rightarrow> Inr (handle_message fails s u d)
      | JsonOther \<Rightarrow> Inl AttributeError
      | NotJson txt \<Rightarrow> Inr (send_personal_message fails s u (PlainMessage txt u)))"

text \<open>The receive loop over the texts a client sends before its connection closes.\<close>

fun serve :: "(websocket \<Rightarrow> bool) \<Rightarrow> manager \<Rightarrow> user_id \<Rightarrow> payload list \<Rightarrow> manager" where
  "serve fails s u [] = s"
| "serve fails s u (p # ps) =
     (case on_text fails s u p of
        Inl e \<Rightarrow> s
      | Inr s' \<Rightarrow> serve fails s' u ps)"

text \<open>
  The \<^verbatim>\<open>finally\<close> clause: \<^verbatim>\<open>websocket_manager.disconnect(user_id)\<close>, called without the
  socket, so that \<^verbatim>\<open>websocket\<close> is \<open>None\<close> in \<^verbatim>\<open>ConnectionManager.disconnect\<close>.
\<close>

definition endpoint_cleanup :: "(websocket \<Rightarrow> bool) \<Rightarrow> manager \<Rightarrow> user_id \<Rightarrow> error + manager" where
  "endpoint_cleanup fails s u = disconnect fails s u None"

text \<open>The whole life of one connection: accept, serve, clean up.\<close>

definition websocket_endpoint ::
  "(websocket \<Rightarrow> bool) \<Rightarrow> manager \<Rightarrow> websocket \<Rightarrow> user_id \<Rightarrow> payload list \<Rightarrow> error + manager" where
  "websocket_endpoint fails s w u ps =
     endpoint_cleanup fails (serve fails (connect fails s w u) u ps) u"

section \<open>The message route of app/api/routes/messages.py\<close>

text \<open>The columns of the tables that \<^verbatim>\<open>send_message\<close> reads and writes.\<close>

record chat_member =
  cm_chat_id :: int
  cm_user_id :: int
  cm_is_active :: bool
  cm_can_send_messages :: bool

record message =
  msg_id :: int
  msg_chat_id :: int
  msg_sender_id :: int
  msg_content :: string
  msg_reply_to_message_id :: "int option"
  msg_is_deleted :: bool
  msg_created_at :: nat

record database =
  chat_members :: "chat_member list"
  messages :: "message list"
  chats :: "(chat_id \<times> nat option) list"

record message_create =
  mc_content :: string
  mc_chat_id :: int
  mc_reply_to_message_id :: "int option"

datatype http_error = HTTPException nat string

text \<open>The membership query of \<^verbatim>\<open>send_message\<close>: an active member who can send messages.\<close>

definition can_send :: "database \<Rightarrow> user_id \<Rightarrow> chat_id \<Rightarrow> bool" where
  "can_send d u c =
     list_ex (\<lambda>m. cm_chat_id m = c \<and> cm_user_id m = u \<and> cm_is_active m \<and> cm_can_send_messages m)
       (chat_members d)"

definition reply_exists :: "database \<Rightarrow> int \<Rightarrow> chat_id \<Rightarrow> bool" where
  "reply_exists d r c =
     list_ex (\<lambda>m. msg_id m = r \<and> msg_chat_id m = c \<and> \<not> msg_is_deleted m) (messages d)"

text \<open>
  \<^verbatim>\<open>send_message\<close>. The primary key and \<^verbatim>\<open>created_at\<close> of the new row are assigned by
  the database on commit; they are the parameters \<open>new_id\<close> and \<open>now\<close>. The result is the
  database after the request and the stored row the response is built from.
\<close>

definition send_message ::
  "database \<Rightarrow> user_id \<Rightarrow> message_create \<Rightarrow> int \<Rightarrow> nat \<Rightarrow> http_error + (database \<times> message)" where
  "send_message d current_user message_data new_id now =
     (if \<not> can_send d current_user (mc_chat_id message_data) then
        Inl (HTTPException 403 ''You cannot send messages to this chat'')
      else if truthy_int (mc_reply_to_message_id message_data)
              \<and> \<not> reply_exists d (the (mc_reply_to_message_id message_data)) (mc_chat_id message_data) then
        Inl (HTTPException 404 ''Reply message not found'')
      else
        (let new_message =
               \<lparr>msg_id = new_id, msg_chat_id = mc_chat_id message_data,
                msg_sender_id = current_user, msg_content = mc_content message_data,
                msg_reply_to_message_id = mc_reply_to_message_id message_data,
                msg_is_deleted = False, msg_created_at = now\<rparr>;
             d1 = d\<lparr>messages := messages d @ [new_message]\<rparr>;
             d2 = (case map_of (chats d1) (mc_chat_id message_data) of
                     None \<Rightarrow> d1
                   | Some t \<Rightarrow> d1\<lparr>chats := AList.update (mc_chat_id message_data) (Some now) (chats d1)\<rparr>)
         in Inr (d2, new_message)))"

section \<open>The application: the manager and the database side by side\<close>

record app =
  websocket_manager :: manager
  db :: database

text \<open>A dictionary received on a user's socket: only the manager is in reach of the handler.\<close>

definition ws_receive :: "(websocket \<Rightarrow> bool) \<Rightarrow> app \<Rightarrow> user_id \<Rightarrow> inbound \<Rightarrow> app" where
  "ws_receive fails a u d = a\<lparr>websocket_manager := handle_message fails (websocket_manager a) u d\<rparr>"

text \<open>A POST to the message route: only the database is in reach of the route.\<close>

definition post_message ::
  "app \<Rightarrow> user_id \<Rightarrow> message_create \<Rightarrow> int \<Rightarrow> nat \<Rightarrow> http_error + (app \<times> message)" where
  "post_message a u message_data new_id now =
     (case send_message (db a) u message_data new_id now of
        Inl e \<Rightarrow> Inl e
      | Inr (d, m) \<Rightarrow> Inr (a\<lparr>db := d\<rparr>, m))"

section \<open>Properties of a manager state\<close>

text \<open>
  In every chat the users flagged as typing are among the users in the room. Stated over
  the keys of \<open>typing_users\<close>; a chat without an entry has nobody typing.
\<close>

definition typing_subset :: "manager \<Rightarrow> bool" where
  "typing_subset s =
     list_all (\<lambda>c. list_all (\<lambda>u. u \<in> set (entry (chat_rooms s) c)) (entry (typing_users s) c))
       (map fst (typing_users s))"

text \<open>The connections of a user on which a write succeeds.\<close>

definition live :: "(websocket \<Rightarrow> bool) \<Rightarrow> manager \<Rightarrow> user_id \<Rightarrow> websocket list" where
  "live fails s u = filter (\<lambda>c. \<not> fails c) (entry (active_connections s) u)"

text \<open>The texts written between the state \<open>s\<close> and a later state \<open>s'\<close>.\<close>

definition new_events :: "manager \<Rightarrow> manager \<Rightarrow> (websocket \<times> event) list" where
  "new_events s s' = drop (length (sent s)) (sent s')"

text \<open>The tags that \<^verbatim>\<open>handle_message\<close> has a branch for.\<close>

definition known_tags :: "string list" where
  "known_tags = [''join_chat'', ''leave_chat'', ''typing'', ''message'', ''message_read'']"

definition known_tag :: "inbound \<Rightarrow> bool" where
  "known_tag d = (case in_type d of None \<Rightarrow> False | Some t \<Rightarrow> t \<in> set known_tags)"

section \<open>Concrete scenarios\<close>

text \<open>No write fails.\<close>

definition all_ok :: "websocket \<Rightarrow> bool" where
  "all_ok w = False"

text \<open>The write to socket 10 fails, every other write succeeds.\<close>

definition only_10_fails :: "websocket \<Rightarrow> bool" where
  "only_10_fails w = (w = 10)"

definition msg_in :: "string \<Rightarrow> int \<Rightarrow> string \<Rightarrow> inbound" where
  "msg_in t c txt =
     \<lparr>in_type = Some t, in_chat_id = Some c, in_content = Some txt,
      in_is_typing = None, in_message_id = None\<rparr>"

text \<open>A fresh manager with a redis client whose hash is empty.\<close>

definition started :: manager where
  "started = init\<lparr>redis := Some []\<rparr>"

text \<open>
  Users 1 and 2 are connected (sockets 10 and 20) and have both joined chat 42; the
  events of the two connects are dropped from the trace so that it starts empty.
\<close>

definition two_in_room :: manager where
  "two_in_room =
     (join_chat_room (join_chat_room (connect all_ok (connect all_ok started 10 1) 20 2) 1 42) 2 42)
       \<lparr>sent := []\<rparr>"

text \<open>The same with user 0 in the place of user 1.\<close>

definition zero_in_room :: manager where
  "zero_in_room =
     (join_chat_room (join_chat_room (connect all_ok (connect all_ok started 10 0) 20 2) 0 42) 2 42)
       \<lparr>sent := []\<rparr>"

text \<open>User 1 has two sockets open (10 and 11) and has joined chat 42.\<close>

definition two_tabs :: manager where
  "two_tabs =
     (join_chat_room (connect all_ok (connect all_ok started 10 1) 11 1) 1 42)\<lparr>sent := []\<rparr>"

text \<open>A database in which chat 42 exists and user 2 is its only member.\<close>

definition db0 :: database where
  "db0 = \<lparr>chat_members =
            [\<lparr>cm_chat_id = 42, cm_user_id = 2, cm_is_active = True, cm_can_send_messages = True\<rparr>],
          messages = [], chats = [(42, None)]\<rparr>"

text \<open>The application with that manager state and that database.\<close>

definition app0 :: app where
  "app0 = \<lparr>websocket_manager = two_in_room, db = db0\<rparr>"

definition hello :: message_create where
  "hello = \<lparr>mc_content = ''hello'', mc_chat_id = 42, mc_reply_to_message_id = None\<rparr>"

text \<open>
  Users 1 and 2 are in chat 42; user 1 has two sockets open (10 and 11) and is flagged as
  typing.
\<close>

definition typing_two_tabs :: manager where
  "typing_two_tabs =
     (set_typing_status all_ok (connect all_ok two_in_room 11 1) 42 1 True)\<lparr>sent := []\<rparr>"

section \<open>Sending: what a write loop changes\<close>

text \<open>
  The two loops of \<^verbatim>\<open>send_personal_message\<close> in closed form: the texts go to the
  connections whose write succeeds, in order, and exactly the others are removed.
\<close>

lemma send_loop_acc:
  "fold (\<lambda>c (out, disconnected).
             case send_text fails c m of
               Inr w \<Rightarrow> (out @ [w], disconnected)
             | Inl e \<Rightarrow> (out, disconnected @ [c]))
          cs (out0, dis0)
   = (out0 @ map (\<lambda>c. (c, m)) (filter (\<lambda>c. \<not> fails c) cs), dis0 @ filter fails cs)"
  by (induction cs arbitrary: out0 dis0) (simp_all add: send_text_def)

lemma send_loop_eq:
  "send_loop fails m cs = (map (\<lambda>c. (c, m)) (filter (\<lambda>c. \<not> fails c) cs), filter fails cs)"
  unfolding send_loop_def by (simp add: send_loop_acc)

lemma remove1_append_notin: "x \<notin> set ys \<Longrightarrow> remove1 x (ys @ x # xs) = ys @ xs"
  by (induction ys) auto

lemma fold_remove1_filter_gen:
  "\<forall>y\<in>set ys. \<not> P y \<Longrightarrow>
   fold remove1 (filter P xs) (ys @ xs) = ys @ filter (\<lambda>c. \<not> P c) xs"
proof (induction xs arbitrary: ys)
  case Nil
  then show ?case by simp
next
  case (Cons x xs)
  show ?case
  proof (cases "P x")
    case True
    with Cons.prems have "x \<notin> set ys" by auto
    then have "remove1 x (ys @ x # xs) = ys @ xs" by (rule remove1_append_notin)
    with True Cons.IH[OF Cons.prems] show ?thesis by simp
  next
    case False
    with Cons.prems have "\<forall>y\<in>set (ys @ [x]). \<not> P y" by auto
    from Cons.IH[OF this] False show ?thesis by simp
  qed
qed

lemma fold_remove1_filter: "fold remove1 (filter P xs) xs = filter (\<lambda>c. \<not> P c) xs"
  using fold_remove1_filter_gen[of "[]" P xs] by simp

lemma send_personal_message_eq:
  "send_personal_message fails s u m =
     (case map_of (active_connections s) u of
        None \<Rightarrow> s
      | Some cs \<Rightarrow>
          s\<lparr>active_connections :=
               AList.update u (filter (\<lambda>c. \<not> fails c) cs) (active_connections s),
             sent := sent s @ map (\<lambda>c. (c, m)) (filter (\<lambda>c. \<not> fails c) cs)\<rparr>)"
  by (simp add: send_personal_message_def send_loop_eq fold_remove1_filter split: option.splits)

lemma spm_frame [simp]:
  "chat_rooms (send_personal_message fails s u m) = chat_rooms s"
  "typing_users (send_personal_message fails s u m) = typing_users s"
  "redis (send_personal_message fails s u m) = redis s"
  by (simp_all add: send_personal_message_eq split: option.splits)

lemma spm_active:
  "map_of (active_connections (send_personal_message fails s u m)) v =
     (if v = u then map_option (filter (\<lambda>c. \<not> fails c)) (map_of (active_connections s) u)
      else map_of (active_connections s) v)"
  by (simp add: send_personal_message_eq update_conv' split: option.splits)

lemma spm_absent [simp]:
  "map_of (active_connections (send_personal_message fails s u m)) v = None
     \<longleftrightarrow> map_of (active_connections s) v = None"
  by (simp add: spm_active)

lemma spm_sent:
  "sent (send_personal_message fails s u m) =
     sent s @ map (\<lambda>c. (c, m)) (filter (\<lambda>c. \<not> fails c) (entry (active_connections s) u))"
  by (simp add: send_personal_message_eq entry_def split: option.splits)

lemma spm_entry:
  "entry (active_connections (send_personal_message fails s u m)) v =
     (if v = u then filter (\<lambda>c. \<not> fails c) (entry (active_connections s) u)
      else entry (active_connections s) v)"
  by (simp add: entry_def spm_active split: option.splits)

lemma spm_noop:
  assumes "entry (active_connections s) u = []"
  shows "send_personal_message fails s u m = s"
proof (cases "map_of (active_connections s) u")
  case None
  then show ?thesis by (simp add: send_personal_message_eq)
next
  case (Some cs)
  with assms have "cs = []" by (simp add: entry_def)
  with Some have "AList.update u [] (active_connections s) = active_connections s"
    by (simp add: update_triv)
  with Some \<open>cs = []\<close> show ?thesis by (simp add: send_personal_message_eq)
qed

text \<open>A loop of sends, each to some user or skipped, as the broadcasts run it.\<close>

lemma fold_send_frame:
  "chat_rooms (fold (\<lambda>v s'. if skip v then s' else send_personal_message fails s' v m) us s) = chat_rooms s
   \<and> typing_users (fold (\<lambda>v s'. if skip v then s' else send_personal_message fails s' v m) us s) = typing_users s
   \<and> redis (fold (\<lambda>v s'. if skip v then s' else send_personal_message fails s' v m) us s) = redis s
   \<and> (map_of (active_connections (fold (\<lambda>v s'. if skip v then s' else send_personal_message fails s' v m) us s)) k = None
        \<longleftrightarrow> map_of (active_connections s) k = None)"
  by (induction us arbitrary: s) simp_all

lemma fold_send_sent:
  "\<exists>xs. sent (fold (\<lambda>v s'. if skip v then s' else send_personal_message fails s' v m) us s) = sent s @ xs
        \<and> snd ` set xs \<subseteq> {m}"
proof (induction us arbitrary: s)
  case Nil
  show ?case by simp
next
  case (Cons v us)
  show ?case
  proof (cases "skip v")
    case True
    with Cons.IH[of s] show ?thesis by simp
  next
    case False
    from Cons.IH[of "send_personal_message fails s v m"]
    obtain xs where xs: "sent (fold (\<lambda>v s'. if skip v then s' else send_personal_message fails s' v m) us
        (send_personal_message fails s v m)) = sent (send_personal_message fails s v m) @ xs"
      "snd ` set xs \<subseteq> {m}" by blast
    let ?ys = "map (\<lambda>c. (c, m)) (filter (\<lambda>c. \<not> fails c) (entry (active_connections s) v)) @ xs"
    have "snd ` set ?ys \<subseteq> {m}" using xs(2) by auto
    moreover have "sent (fold (\<lambda>v s'. if skip v then s' else send_personal_message fails s' v m) (v # us) s)
       = sent s @ ?ys" using False xs(1) by (simp add: spm_sent)
    ultimately show ?thesis by blast
  qed
qed

lemma broadcast_to_chat_frame [simp]:
  "chat_rooms (broadcast_to_chat fails s c m ex) = chat_rooms s"
  "typing_users (broadcast_to_chat fails s c m ex) = typing_users s"
  "redis (broadcast_to_chat fails s c m ex) = redis s"
  "map_of (active_connections (broadcast_to_chat fails s c m ex)) k = None
        \<longleftrightarrow> map_of (active_connections s) k = None"
  by (simp_all add: broadcast_to_chat_def fold_send_frame split: option.splits)

lemma broadcast_to_chat_sent:
  "\<exists>xs. sent (broadcast_to_chat fails s c m ex) = sent s @ xs \<and> snd ` set xs \<subseteq> {m}"
proof (cases "map_of (chat_rooms s) c")
  case None
  then show ?thesis by (simp add: broadcast_to_chat_def)
next
  case (Some us)
  then show ?thesis using fold_send_sent[of "skipped ex" fails m us s]
    by (simp add: broadcast_to_chat_def)
qed

lemma broadcast_user_status_alt:
  "broadcast_user_status fails s u st =
     fold (\<lambda>v s'. if v = u then s' else send_personal_message fails s' v (UserStatus u st))
       (map fst (active_connections s)) s"
proof -
  have "(\<lambda>v s'. if v \<noteq> u then send_personal_message fails s' v (UserStatus u st) else s')
      = (\<lambda>v s'. if v = u then s' else send_personal_message fails s' v (UserStatus u st))"
    by (intro ext) simp
  then show ?thesis by (simp add: broadcast_user_status_def)
qed

lemma broadcast_user_status_frame [simp]:
  "chat_rooms (broadcast_user_status fails s u st) = chat_rooms s"
  "typing_users (broadcast_user_status fails s u st) = typing_users s"
  "redis (broadcast_user_status fails s u st) = redis s"
  "map_of (active_connections (broadcast_user_status fails s u st)) k = None
        \<longleftrightarrow> map_of (active_connections s) k = None"
  by (simp_all add: broadcast_user_status_alt fold_send_frame)

lemma broadcast_typing_status_frame [simp]:
  "chat_rooms (broadcast_typing_status fails s c u b) = chat_rooms s"
  "typing_users (broadcast_typing_status fails s c u b) = typing_users s"
  "redis (broadcast_typing_status fails s c u b) = redis s"
  "map_of (active_connections (broadcast_typing_status fails s c u b)) k = None
        \<longleftrightarrow> map_of (active_connections s) k = None"
  by (simp_all add: broadcast_typing_status_def)

lemma broadcast_typing_status_sent:
  "\<exists>xs. sent (broadcast_typing_status fails s c u b) = sent s @ xs
        \<and> (\<forall>e \<in> snd ` set xs. ev_type e = ''typing'')"
proof -
  obtain xs where "sent (broadcast_to_chat fails s c (Typing c u b) (Some u)) = sent s @ xs"
    "snd ` set xs \<subseteq> {Typing c u b}"
    using broadcast_to_chat_sent by blast
  then show ?thesis unfolding broadcast_typing_status_def by (intro exI[of _ xs]) auto
qed

text \<open>Entries of a dictionary after an update and after a deletion.\<close>

lemma entry_update: "entry (AList.update k v al) c = (if c = k then v else entry al c)"
  by (simp add: entry_def update_conv')

lemma entry_delete: "entry (AList.delete k al) c = (if c = k then [] else entry al c)"
  by (simp add: entry_def delete_conv')

lemma entry_no_key: "c \<notin> set (map fst al) \<Longrightarrow> entry al c = []"
  by (simp add: entry_def map_of_eq_None_iff[THEN iffD2])

lemma entry_Some: "map_of al k = Some xs \<Longrightarrow> entry al k = xs"
  by (simp add: entry_def)

lemma entry_None: "map_of al k = None \<Longrightarrow> entry al k = []"
  by (simp add: entry_def)

lemma purge_room_entry:
  "set (entry (purge_room u k rooms) c) = (if c = k then set (entry rooms c) - {u} else set (entry rooms c))"
proof (cases "map_of rooms k")
  case None
  then show ?thesis by (simp add: purge_room_def entry_None)
next
  case (Some us)
  note e = entry_Some[OF Some]
  show ?thesis
  proof (cases "u \<in> set us")
    case False
    then show ?thesis using Some e by (auto simp add: purge_room_def)
  next
    case True
    have r: "set (removeAll u us) = set us - {u}" by simp
    show ?thesis
    proof (cases "removeAll u us = []")
      case True
      with r have "set us - {u} = {}" by simp
      with True \<open>u \<in> set us\<close> Some e show ?thesis
        by (simp add: purge_room_def entry_delete)
    next
      case False
      with \<open>u \<in> set us\<close> Some e show ?thesis
        by (simp add: purge_room_def entry_update)
    qed
  qed
qed

lemma fold_purge_room_entry:
  "set (entry (fold (purge_room u) ks rooms) c)
     = (if c \<in> set ks then set (entry rooms c) - {u} else set (entry rooms c))"
  by (induction ks arbitrary: rooms) (auto simp add: purge_room_entry)

lemma purge_rooms_entry:
  "set (entry (chat_rooms (purge_rooms u s)) c) = set (entry (chat_rooms s) c) - {u}"
  using entry_no_key[of c "chat_rooms s"]
  by (auto simp add: purge_rooms_def fold_purge_room_entry)

lemma purge_rooms_frame [simp]:
  "typing_users (purge_rooms u s) = typing_users s"
  "redis (purge_rooms u s) = redis s"
  "sent (purge_rooms u s) = sent s"
  "active_connections (purge_rooms u s) = active_connections s"
  by (simp_all add: purge_rooms_def)

lemma purge_typing_frame [simp]:
  "chat_rooms (purge_typing fails u k s) = chat_rooms s"
  "redis (purge_typing fails u k s) = redis s"
  "map_of (active_connections (purge_typing fails u k s)) v = None
        \<longleftrightarrow> map_of (active_connections s) v = None"
  by (simp_all add: purge_typing_def split: option.splits)

lemma purge_typing_entry:
  "set (entry (typing_users (purge_typing fails u k s)) c)
     = (if c = k then set (entry (typing_users s) c) - {u} else set (entry (typing_users s) c))"
proof (cases "map_of (typing_users s) k")
  case None
  then show ?thesis by (simp add: purge_typing_def entry_None)
next
  case (Some us)
  note e = entry_Some[OF Some]
  show ?thesis using Some e by (auto simp add: purge_typing_def entry_update)
qed

lemma purge_typing_sent:
  "\<exists>xs. sent (purge_typing fails u k s) = sent s @ xs
        \<and> (\<forall>e \<in> snd ` set xs. ev_type e = ''typing'')"
proof (cases "\<exists>us. map_of (typing_users s) k = Some us \<and> u \<in> set us")
  case True
  then obtain us where us: "map_of (typing_users s) k = Some us" "u \<in> set us" by blast
  let ?s1 = "s\<lparr>typing_users := AList.update k (removeAll u us) (typing_users s)\<rparr>"
  have "purge_typing fails u k s = broadcast_typing_status fails ?s1 k u False"
    using us by (simp add: purge_typing_def)
  moreover have "sent ?s1 = sent s" by simp
  ultimately show ?thesis using broadcast_typing_status_sent[of fails ?s1 k u False] by simp
next
  case False
  then have "purge_typing fails u k s = s"
    by (auto simp add: purge_typing_def split: option.splits)
  then show ?thesis by simp
qed

lemma fold_purge_typing:
  "chat_rooms (fold (purge_typing fails u) ks s) = chat_rooms s
   \<and> redis (fold (purge_typing fails u) ks s) = redis s
   \<and> (map_of (active_connections (fold (purge_typing fails u) ks s)) v = None
        \<longleftrightarrow> map_of (active_connections s) v = None)
   \<and> set (entry (typing_users (fold (purge_typing fails u) ks s)) c)
        = (if c \<in> set ks then set (entry (typing_users s) c) - {u} else set (entry (typing_users s) c))"
  by (induction ks arbitrary: s) (auto simp add: purge_typing_entry)

lemma fold_purge_typing_sent:
  "\<exists>xs. sent (fold (purge_typing fails u) ks s) = sent s @ xs
        \<and> (\<forall>e \<in> snd ` set xs. ev_type e = ''typing'')"
proof (induction ks arbitrary: s)
  case Nil
  show ?case by simp
next
  case (Cons k ks)
  obtain xs where xs: "sent (purge_typing fails u k s) = sent s @ xs"
    "\<forall>e \<in> snd ` set xs. ev_type e = ''typing''"
    using purge_typing_sent by blast
  obtain ys where ys: "sent (fold (purge_typing fails u) ks (purge_typing fails u k s))
       = sent (purge_typing fails u k s) @ ys"
    "\<forall>e \<in> snd ` set ys. ev_type e = ''typing''"
    using Cons.IH by blast
  have "sent (fold (purge_typing fails u) (k # ks) s) = sent s @ (xs @ ys)"
    using xs(1) ys(1) by simp
  moreover have "\<forall>e \<in> snd ` set (xs @ ys). ev_type e = ''typing''"
    using xs(2) ys(2) by auto
  ultimately show ?case by blast
qed

lemma purge_typings_frame [simp]:
  "chat_rooms (purge_typings fails u s) = chat_rooms s"
  "redis (purge_typings fails u s) = redis s"
  "map_of (active_connections (purge_typings fails u s)) v = None
        \<longleftrightarrow> map_of (active_connections s) v = None"
  by (simp_all add: purge_typings_def fold_purge_typing)

lemma purge_typings_entry:
  "set (entry (typing_users (purge_typings fails u s)) c) = set (entry (typing_users s) c) - {u}"
  using entry_no_key[of c "typing_users s"] fold_purge_typing[of fails u "map fst (typing_users s)" s]
  by (auto simp add: purge_typings_def)

lemma purge_typings_sent:
  "\<exists>xs. sent (purge_typings fails u s) = sent s @ xs
        \<and> (\<forall>e \<in> snd ` set xs. ev_type e = ''typing'')"
  unfolding purge_typings_def by (rule fold_purge_typing_sent)

lemma set_user_online_frame [simp]:
  "chat_rooms (set_user_online s u b) = chat_rooms s"
  "typing_users (set_user_online s u b) = typing_users s"
  "active_connections (set_user_online s u b) = active_connections s"
  "sent (set_user_online s u b) = sent s"
  by (simp_all add: set_user_online_def split: option.splits)

lemma drop_connection_frame:
  "drop_connection fails s u w = Inr s1 \<Longrightarrow>
     chat_rooms s1 = chat_rooms s \<and> typing_users s1 = typing_users s"
  by (auto simp add: drop_connection_def split: option.splits sum.splits if_splits)

lemma disconnect_rooms:
  assumes "disconnect fails s u w = Inr s'"
  shows "set (entry (chat_rooms s') c) = set (entry (chat_rooms s) c) - {u}"
    and "set (entry (typing_users s') c) = set (entry (typing_users s) c) - {u}"
proof -
  from assms obtain s1 where s1: "drop_connection fails s u w = Inr s1"
    and s': "s' = purge_typings fails u (purge_rooms u s1)"
    by (auto simp add: disconnect_def split: sum.splits)
  from drop_connection_frame[OF s1]
  show "set (entry (chat_rooms s') c) = set (entry (chat_rooms s) c) - {u}"
    by (simp add: s' purge_rooms_entry)
  from drop_connection_frame[OF s1]
  show "set (entry (typing_users s') c) = set (entry (typing_users s) c) - {u}"
    by (simp add: s' purge_typings_entry)
qed

section \<open>Broadcasts: who is written to\<close>

text \<open>
  A broadcast writes its event once to each working connection of each member of the
  room that is not skipped, in the order of the members.
\<close>

lemma live_spm: "live fails (send_personal_message fails s u m) v = live fails s v"
  by (simp add: live_def spm_entry)

lemma spm_sent_live:
  "sent (send_personal_message fails s u m) = sent s @ map (\<lambda>w. (w, m)) (live fails s u)"
  by (simp add: live_def spm_sent)

lemma fold_send_live:
  "live fails (fold (\<lambda>v s'. if skip v then s' else send_personal_message fails s' v m) us s) k
     = live fails s k"
  by (induction us arbitrary: s) (simp_all add: live_spm)

lemma fold_send_exact:
  "sent (fold (\<lambda>v s'. if skip v then s' else send_personal_message fails s' v m) us s)
     = sent s @ concat (map (\<lambda>v. map (\<lambda>w. (w, m)) (live fails s v)) (filter (\<lambda>v. \<not> skip v) us))"
proof (induction us arbitrary: s)
  case Nil
  show ?case by simp
next
  case (Cons v us)
  show ?case
  proof (cases "skip v")
    case True
    then show ?thesis using Cons.IH[of s] by simp
  next
    case False
    then show ?thesis
      using Cons.IH[of "send_personal_message fails s v m"]
      by (simp add: spm_sent_live live_spm)
  qed
qed

lemma broadcast_to_chat_exact:
  "sent (broadcast_to_chat fails s c m ex)
     = sent s @ concat (map (\<lambda>v. map (\<lambda>w. (w, m)) (live fails s v))
                          (filter (\<lambda>v. \<not> skipped ex v) (entry (chat_rooms s) c)))"
  by (simp add: broadcast_to_chat_def fold_send_exact entry_def split: option.splits)

text \<open>
  For a sender whose id is not \<open>0\<close> the typing event is written exactly to the working
  connections of the members of the room other than the sender.
\<close>

lemma set_typing_status_exact:
  assumes "u \<noteq> 0"
  shows "sent (set_typing_status fails s c u b)
     = sent s @ concat (map (\<lambda>v. map (\<lambda>w. (w, Typing c u b)) (live fails s v))
                          (filter (\<lambda>v. v \<noteq> u) (entry (chat_rooms s) c)))"
proof -
  have sk: "(\<lambda>v. \<not> skipped (Some u) v) = (\<lambda>v. v \<noteq> u)"
    using assms by (auto simp add: skipped_def)
  show ?thesis
    by (simp add: set_typing_status_def Let_def broadcast_typing_status_def
        broadcast_to_chat_exact sk live_def)
qed

text \<open>
  A \<^verbatim>\<open>message\<close> event with a chat id and a content is written to the working connections
  of every member of the room, the sender included when present.
\<close>

lemma handle_message_message_exact:
  assumes "in_type d = Some ''message''" and "in_chat_id d = Some c" and "c \<noteq> 0"
    and "in_content d = Some txt" and "txt \<noteq> []"
  shows "sent (handle_message fails s u d)
     = sent s @ concat (map (\<lambda>v. map (\<lambda>w. (w, NewMessage c u txt)) (live fails s v))
                          (entry (chat_rooms s) c))"
  using assms
  by (simp add: handle_message_def truthy_int_def truthy_str_def broadcast_to_chat_exact skipped_def)

section \<open>Sends never add a connection\<close>

text \<open>
  A send only removes connections, so a socket that \<^verbatim>\<open>disconnect\<close> has taken out of a list
  stays out during the broadcasts that follow in the same call.
\<close>

lemma spm_conns_subset:
  "set (entry (active_connections (send_personal_message fails s u m)) v)
     \<subseteq> set (entry (active_connections s) v)"
  by (auto simp add: spm_entry)

lemma fold_send_subset:
  "set (entry (active_connections
          (fold (\<lambda>v s'. if skip v then s' else send_personal_message fails s' v m) us s)) k)
     \<subseteq> set (entry (active_connections s) k)"
proof (induction us arbitrary: s)
  case Nil
  show ?case by simp
next
  case (Cons v us)
  show ?case
  proof (cases "skip v")
    case True
    then show ?thesis using Cons.IH[of s] by simp
  next
    case False
    then show ?thesis
      using Cons.IH[of "send_personal_message fails s v m"] spm_conns_subset[of fails s v m k]
      by auto
  qed
qed

lemma broadcast_to_chat_subset:
  "set (entry (active_connections (broadcast_to_chat fails s c m ex)) k)
     \<subseteq> set (entry (active_connections s) k)"
  by (simp add: broadcast_to_chat_def fold_send_subset split: option.splits)

lemma purge_typing_subset:
  "set (entry (active_connections (purge_typing fails u c s)) k)
     \<subseteq> set (entry (active_connections s) k)"
proof (cases "\<exists>us. map_of (typing_users s) c = Some us \<and> u \<in> set us")
  case True
  then obtain us where us: "map_of (typing_users s) c = Some us" "u \<in> set us" by blast
  let ?s1 = "s\<lparr>typing_users := AList.update c (removeAll u us) (typing_users s)\<rparr>"
  have "purge_typing fails u c s = broadcast_to_chat fails ?s1 c (Typing c u False) (Some u)"
    using us by (simp add: purge_typing_def broadcast_typing_status_def)
  then show ?thesis
    using broadcast_to_chat_subset[of fails ?s1 c "Typing c u False" "Some u" k] by simp
next
  case False
  then have "purge_typing fails u c s = s"
    by (auto simp add: purge_typing_def split: option.splits)
  then show ?thesis by simp
qed

lemma purge_typings_subset:
  "set (entry (active_connections (purge_typings fails u s)) k)
     \<subseteq> set (entry (active_connections s) k)"
proof -
  have "set (entry (active_connections (fold (purge_typing fails u) ks s)) k)
     \<subseteq> set (entry (active_connections s) k)" for ks
  proof (induction ks arbitrary: s)
    case Nil
    show ?case by simp
  next
    case (Cons c ks)
    show ?case
      using Cons.IH[of "purge_typing fails u c s"] purge_typing_subset[of fails u c s k]
      by auto
  qed
  then show ?thesis by (simp add: purge_typings_def)
qed

text \<open>
  \<^verbatim>\<open>disconnect\<close> called with the socket: the socket is gone from the user's list afterwards
  (a socket is appended to a list once, so the list has no duplicates).
\<close>

lemma drop_connection_removes:
  assumes "drop_connection fails s u (Some w) = Inr s1"
    and "distinct (entry (active_connections s) u)"
  shows "w \<notin> set (entry (active_connections s1) u)"
proof (cases "map_of (active_connections s) u")
  case None
  with assms(1) show ?thesis by (simp add: drop_connection_def entry_None)
next
  case (Some cs)
  with assms(2) have d: "distinct cs" by (simp add: entry_Some)
  from assms(1) Some have w: "w \<in> set cs"
    by (auto simp add: drop_connection_def split: if_splits)
  show ?thesis
  proof (cases "remove1 w cs = []")
    case True
    with assms(1) Some w have "s1 = broadcast_user_status fails
            (set_user_online (s\<lparr>active_connections := AList.delete u (active_connections s)\<rparr>) u False)
            u ''offline''"
      by (simp add: drop_connection_def)
    then have "map_of (active_connections s1) u = None" by (simp add: delete_conv')
    then show ?thesis by (simp add: entry_None)
  next
    case False
    with assms(1) Some w
    have "s1 = s\<lparr>active_connections := AList.update u (remove1 w cs) (active_connections s)\<rparr>"
      by (simp add: drop_connection_def)
    then have "entry (active_connections s1) u = remove1 w cs" by (simp add: entry_update)
    with d show ?thesis by simp
  qed
qed

lemma disconnect_removes_given_socket:
  assumes "disconnect fails s u (Some w) = Inr s'"
    and "distinct (entry (active_connections s) u)"
  shows "w \<notin> set (entry (active_connections s') u)"
proof -
  from assms(1) obtain s1 where s1: "drop_connection fails s u (Some w) = Inr s1"
    and s': "s' = purge_typings fails u (purge_rooms u s1)"
    by (auto simp add: disconnect_def split: sum.splits)
  from drop_connection_removes[OF s1 assms(2)]
  have "w \<notin> set (entry (active_connections (purge_rooms u s1)) u)" by simp
  with purge_typings_subset[of fails u "purge_rooms u s1" u] show ?thesis
    unfolding s' by blast
qed

section \<open>The message branch of the websocket handler\<close>

text \<open>
  C1. A successful send should deliver one \<open>new_message\<close> to every present member but
  the sender and one \<open>ack\<close> to the sender, all with the id the persistence call returned.
  The \<^verbatim>\<open>message\<close> branch of \<^verbatim>\<open>handle_message\<close> does not do this: with users 1 and 2 in
  chat 42, a message from user 1 puts the same \<open>new_message\<close> on the sender's socket 10 and
  on socket 20, no acknowledgement is written, and the event has no message id.
\<close>

theorem handle_message_no_ack:
  "sent (handle_message all_ok two_in_room 1 (msg_in ''message'' 42 ''hello''))
     = [(10, NewMessage 42 1 ''hello''), (20, NewMessage 42 1 ''hello'')]"
  by code_simp

text \<open>
  C2. A message should be persisted before it is broadcast. The websocket handler reaches
  only the manager: after a \<^verbatim>\<open>message\<close> event from user 2 the table of messages is still
  empty, and the event has been written to both sockets of the room.
\<close>

theorem ws_receive_broadcasts_unpersisted:
  "messages (db (ws_receive all_ok app0 2 (msg_in ''message'' 42 ''hello''))) = []
   \<and> sent (websocket_manager (ws_receive all_ok app0 2 (msg_in ''message'' 42 ''hello'')))
       = [(10, NewMessage 42 2 ''hello''), (20, NewMessage 42 2 ''hello'')]"
  by code_simp

text \<open>
  C3. A sender who is not authorised in the room should get Forbidden and cause nothing.
  User 1 has no membership row for chat 42, and the message route refuses the same request
  with status 403; on the websocket the message is broadcast to the room all the same.
\<close>

theorem ws_receive_unauthorized_broadcast:
  "\<not> can_send (db app0) 1 42
   \<and> post_message app0 1 hello 501 7 = Inl (HTTPException 403 ''You cannot send messages to this chat'')
   \<and> sent (websocket_manager (ws_receive all_ok app0 1 (msg_in ''message'' 42 ''hello'')))
       = [(10, NewMessage 42 1 ''hello''), (20, NewMessage 42 1 ''hello'')]"
  by code_simp

section \<open>Typing events and the excluded sender\<close>

text \<open>
  C7. A typing event should reach every present member but the sender. With users 0 and 2
  in chat 42, the typing event of user 0 is written to the sender's own socket 10 as well:
  the exclusion test of \<^verbatim>\<open>broadcast_to_chat\<close> reads the excluded id as a truth value.
  For every other sender the claim holds (\<open>set_typing_status_exact\<close>).
\<close>

theorem set_typing_status_user_zero:
  "sent (set_typing_status all_ok zero_in_room 42 0 True)
     = [(10, Typing 42 0 True), (20, Typing 42 0 True)]"
  by code_simp

section \<open>Cleanup at the end of a connection\<close>

text \<open>
  C10. After the cleanup of a closed connection no reference to it should remain. User 1
  opens socket 10 and closes it without sending anything: the endpoint's cleanup calls
  \<^verbatim>\<open>disconnect\<close> without the socket, socket 10 stays in the list of user 1, and the user
  is still recorded as online. Called with the socket, \<^verbatim>\<open>disconnect\<close> does remove it
  (\<open>disconnect_removes_given_socket\<close>).
\<close>

theorem websocket_endpoint_keeps_connection:
  "websocket_endpoint all_ok started 10 1 []
     = Inr (started\<lparr>active_connections := [(1, [10])], redis := Some [(1, ''online'')]\<rparr>)"
  by code_simp

section \<open>Users without a connection\<close>

text \<open>
  \<^verbatim>\<open>join_chat_room\<close> does not look at \<open>active_connections\<close>: on a fresh manager user 1,
  who has no connection, is put into chat 42.
\<close>

theorem join_chat_room_connectionless:
  "entry (active_connections (join_chat_room init 1 42)) 1 = []
   \<and> 1 \<in> set (entry (chat_rooms (join_chat_room init 1 42)) 42)"
  by code_simp

text \<open>
  C4, as amended. A user without a connection can be in a room or flagged as typing, since
  joining and typing do not look at the connections. What the code guarantees is that a
  \<^verbatim>\<open>disconnect\<close> of the user that completes leaves the user absent from every room and
  from every set of typing users.
\<close>

theorem disconnect_purges_user:
  "disconnect fails s u w = Inr s' \<Longrightarrow>
     u \<notin> set (entry (chat_rooms s') c) \<and> u \<notin> set (entry (typing_users s') c)"
  using disconnect_rooms[of fails s u w s' c] by simp

theorem disconnect_purges_user_witness:
  "disconnect all_ok (set_typing_status all_ok two_in_room 42 1 True) 1 None
     = Inr (two_in_room\<lparr>chat_rooms := [(42, [2])], typing_users := [(42, [])],
                        sent := [(20, Typing 42 1 True), (20, Typing 42 1 False)]\<rparr>)
   \<and> 1 \<notin> set (entry (chat_rooms (two_in_room\<lparr>chat_rooms := [(42, [2])], typing_users := [(42, [])],
                        sent := [(20, Typing 42 1 True), (20, Typing 42 1 False)]\<rparr>)) 42)
   \<and> 1 \<notin> set (entry (typing_users (two_in_room\<lparr>chat_rooms := [(42, [2])], typing_users := [(42, [])],
                        sent := [(20, Typing 42 1 True), (20, Typing 42 1 False)]\<rparr>)) 42)"
proof -
  have h: "disconnect all_ok (set_typing_status all_ok two_in_room 42 1 True) 1 None
     = Inr (two_in_room\<lparr>chat_rooms := [(42, [2])], typing_users := [(42, [])],
                        sent := [(20, Typing 42 1 True), (20, Typing 42 1 False)]\<rparr>)"
    by code_simp
  from disconnect_purges_user[OF h, of 42] h show ?thesis by simp
qed

section \<open>Delivery to one user\<close>

text \<open>
  \<^verbatim>\<open>send_personal_message\<close> has no failing outcome: for a user without any connection it
  returns, having changed nothing.
\<close>

theorem send_personal_message_no_connections:
  "entry (active_connections started) 1 = []
   \<and> send_personal_message all_ok started 1 (UserStatus 2 ''online'') = started"
  by code_simp

text \<open>
  C8, as amended. A send is tried on every connection of the user: the text is written to
  each connection whose write succeeds, and exactly the connections whose write fails are
  removed from the user's list; the lists of the other users, the rooms and the typing
  sets are untouched. The call itself never fails: for a user with no connection it
  returns with nothing changed.
\<close>

theorem send_personal_message_delivery:
  "entry (active_connections (send_personal_message fails s u m)) u
       = filter (\<lambda>c. \<not> fails c) (entry (active_connections s) u)
   \<and> sent (send_personal_message fails s u m)
       = sent s @ map (\<lambda>c. (c, m)) (filter (\<lambda>c. \<not> fails c) (entry (active_connections s) u))
   \<and> (\<forall>v. v \<noteq> u \<longrightarrow>
         entry (active_connections (send_personal_message fails s u m)) v
           = entry (active_connections s) v)
   \<and> chat_rooms (send_personal_message fails s u m) = chat_rooms s
   \<and> typing_users (send_personal_message fails s u m) = typing_users s
   \<and> (entry (active_connections s) u = [] \<longrightarrow> send_personal_message fails s u m = s)"
  by (simp add: spm_entry spm_sent spm_noop)

theorem send_personal_message_delivery_witness:
  "entry (active_connections (send_personal_message only_10_fails two_tabs 1 (UserStatus 2 ''online''))) 1 = [11]
   \<and> sent (send_personal_message only_10_fails two_tabs 1 (UserStatus 2 ''online''))
        = [(11, UserStatus 2 ''online'')]
   \<and> (2::int) \<noteq> 1
   \<and> entry (active_connections (send_personal_message only_10_fails two_tabs 1 (UserStatus 2 ''online''))) 2
        = entry (active_connections two_tabs) 2
   \<and> entry (active_connections two_tabs) 5 = []
   \<and> send_personal_message only_10_fails two_tabs 5 (UserStatus 2 ''online'') = two_tabs"
proof -
  have e1: "entry (active_connections two_tabs) 1 = [10, 11]" by code_simp
  have e5: "entry (active_connections two_tabs) 5 = []" by code_simp
  have s0: "sent two_tabs = []" by code_simp
  from send_personal_message_delivery[of only_10_fails two_tabs 1 "UserStatus 2 ''online''"]
       send_personal_message_delivery[of only_10_fails two_tabs 5 "UserStatus 2 ''online''"]
  show ?thesis by (simp add: e1 e5 s0 only_10_fails_def)
qed

section \<open>Inbound texts that are not events\<close>

text \<open>
  A text that is not JSON is not answered with an error event on the socket it came from:
  it is echoed as a \<open>message\<close> event to every socket of the user.
\<close>

theorem on_text_not_json_is_echoed:
  "on_text all_ok two_tabs 1 (NotJson ''hi'')
     = Inr (two_tabs\<lparr>sent := [(10, PlainMessage ''hi'' 1), (11, PlainMessage ''hi'' 1)]\<rparr>)
   \<and> ev_type (PlainMessage ''hi'' 1) = ''message''"
  by code_simp

lemma handle_message_unknown:
  "\<not> known_tag d \<Longrightarrow> handle_message fails s u d = s"
  by (auto simp add: known_tag_def known_tags_def handle_message_def split: option.splits)

text \<open>
  C9, as amended. A text that cannot be parsed is echoed back as a \<open>message\<close> event to
  every connection of the sending user whose write succeeds; rooms, typing sets and the
  status hash are unchanged, and the only change to the registry is that the connections
  of that user whose write failed are dropped. An event whose tag is none of the tags the
  handler knows is ignored: the state, the trace of written texts included, is unchanged.
\<close>

theorem on_text_malformed_or_unknown:
  "(\<exists>s'. on_text fails s u (NotJson txt) = Inr s'
         \<and> chat_rooms s' = chat_rooms s \<and> typing_users s' = typing_users s \<and> redis s' = redis s
         \<and> sent s' = sent s @ map (\<lambda>c. (c, PlainMessage txt u))
                                (filter (\<lambda>c. \<not> fails c) (entry (active_connections s) u))
         \<and> (\<forall>v. entry (active_connections s') v
                  = (if v = u then filter (\<lambda>c. \<not> fails c) (entry (active_connections s) u)
                     else entry (active_connections s) v)))
   \<and> (\<not> known_tag d \<longrightarrow> on_text fails s u (JsonObject d) = Inr s)"
  by (simp add: on_text_def spm_entry spm_sent handle_message_unknown)

theorem on_text_malformed_or_unknown_witness:
  "\<not> known_tag (msg_in ''ping'' 42 ''x'')
   \<and> on_text only_10_fails two_tabs 1 (JsonObject (msg_in ''ping'' 42 ''x'')) = Inr two_tabs"
proof -
  have h: "\<not> known_tag (msg_in ''ping'' 42 ''x'')" by code_simp
  from on_text_malformed_or_unknown[of only_10_fails two_tabs 1 "''hi''" "msg_in ''ping'' 42 ''x''"] h
  show ?thesis by simp
qed

section \<open>Disconnecting one of several connections\<close>

text \<open>
  User 1 has sockets 10 and 11 and is in chat 42. Disconnecting socket 10 leaves socket 11
  open, and the user is removed from chat 42 all the same.
\<close>

theorem disconnect_one_of_two_purges:
  "disconnect all_ok two_tabs 1 (Some 10)
     = Inr (two_tabs\<lparr>active_connections := [(1, [11])], chat_rooms := []\<rparr>)
   \<and> entry (chat_rooms two_tabs) 42 = [1]"
  by code_simp

lemma entry_nonempty_key: "entry al k \<noteq> [] \<Longrightarrow> map_of al k \<noteq> None"
  by (cases "map_of al k") (simp_all add: entry_def)

lemma drop_connection_quiet:
  assumes "drop_connection fails s u w = Inr s1" and "map_of (active_connections s1) u \<noteq> None"
  shows "redis s1 = redis s \<and> sent s1 = sent s"
proof (cases "map_of (active_connections s) u")
  case None
  with assms(1) show ?thesis by (simp add: drop_connection_def)
next
  case (Some cs)
  define cs' where "cs' = (case w of None \<Rightarrow> cs | Some x \<Rightarrow> remove1 x cs)"
  show ?thesis
  proof (cases "cs' = []")
    case True
    with assms(1) Some have "s1 = broadcast_user_status fails
            (set_user_online (s\<lparr>active_connections := AList.delete u (active_connections s)\<rparr>) u False)
            u ''offline''"
      by (auto simp add: drop_connection_def cs'_def split: option.splits if_splits)
    then have "map_of (active_connections s1) u = None"
      by (simp add: delete_conv')
    with assms(2) show ?thesis by simp
  next
    case False
    with assms(1) Some have "s1 = s\<lparr>active_connections := AList.update u cs' (active_connections s)\<rparr>"
      by (auto simp add: drop_connection_def cs'_def split: option.splits if_splits)
    then show ?thesis by simp
  qed
qed

lemma new_events_append: "sent s' = sent s @ xs \<Longrightarrow> new_events s s' = xs"
  by (simp add: new_events_def)

text \<open>
  C6, as amended. When a disconnect completes and the user still has a connection
  afterwards, no offline transition has happened: the status hash is unchanged and the
  only texts written during the call are typing events. The user is nevertheless removed
  from every room and from every set of typing users: the purge runs on every disconnect,
  not only when the last connection goes.
\<close>

theorem disconnect_with_connection_left:
  assumes "disconnect fails s u w = Inr s'" and "entry (active_connections s') u \<noteq> []"
  shows "redis s' = redis s
     \<and> sent s' = sent s @ new_events s s'
     \<and> (\<forall>e \<in> snd ` set (new_events s s'). ev_type e = ''typing'')
     \<and> u \<notin> set (entry (chat_rooms s') c) \<and> u \<notin> set (entry (typing_users s') c)"
proof -
  from assms(1) obtain s1 where s1: "drop_connection fails s u w = Inr s1"
    and s': "s' = purge_typings fails u (purge_rooms u s1)"
    by (auto simp add: disconnect_def split: sum.splits)
  from assms(2) have "map_of (active_connections s') u \<noteq> None" by (rule entry_nonempty_key)
  then have "map_of (active_connections s1) u \<noteq> None" by (simp add: s')
  from drop_connection_quiet[OF s1 this] have q: "redis s1 = redis s" "sent s1 = sent s" by simp_all
  obtain xs where xs: "sent s' = sent (purge_rooms u s1) @ xs"
    "\<forall>e \<in> snd ` set xs. ev_type e = ''typing''"
    unfolding s' using purge_typings_sent by blast
  from xs(1) q(2) have sx: "sent s' = sent s @ xs" by simp
  then have ne: "new_events s s' = xs" by (rule new_events_append)
  have "redis s' = redis s" using q(1) by (simp add: s')
  with sx ne xs(2) disconnect_rooms[OF assms(1), of c] show ?thesis by simp
qed

theorem disconnect_with_connection_left_witness:
  "disconnect all_ok typing_two_tabs 1 (Some 10)
     = Inr (typing_two_tabs\<lparr>active_connections := [(1, [11]), (2, [20])],
              chat_rooms := [(42, [2])], typing_users := [(42, [])],
              sent := [(20, Typing 42 1 False)]\<rparr>)
   \<and> entry (active_connections (typing_two_tabs\<lparr>active_connections := [(1, [11]), (2, [20])],
              chat_rooms := [(42, [2])], typing_users := [(42, [])],
              sent := [(20, Typing 42 1 False)]\<rparr>)) 1 \<noteq> []
   \<and> redis (typing_two_tabs\<lparr>active_connections := [(1, [11]), (2, [20])],
              chat_rooms := [(42, [2])], typing_users := [(42, [])],
              sent := [(20, Typing 42 1 False)]\<rparr>) = redis typing_two_tabs
   \<and> 1 \<notin> set (entry (chat_rooms (typing_two_tabs\<lparr>active_connections := [(1, [11]), (2, [20])],
              chat_rooms := [(42, [2])], typing_users := [(42, [])],
              sent := [(20, Typing 42 1 False)]\<rparr>)) 42)
   \<and> 1 \<notin> set (entry (typing_users (typing_two_tabs\<lparr>active_connections := [(1, [11]), (2, [20])],
              chat_rooms := [(42, [2])], typing_users := [(42, [])],
              sent := [(20, Typing 42 1 False)]\<rparr>)) 42)"
proof -
  let ?s' = "typing_two_tabs\<lparr>active_connections := [(1, [11]), (2, [20])],
              chat_rooms := [(42, [2])], typing_users := [(42, [])],
              sent := [(20, Typing 42 1 False)]\<rparr>"
  have h: "disconnect all_ok typing_two_tabs 1 (Some 10) = Inr ?s'" by code_simp
  have n: "entry (active_connections ?s') 1 \<noteq> []" by (simp add: entry_def)
  from disconnect_with_connection_left[OF h n, of 42] h n show ?thesis by simp
qed

section \<open>Typing users and room members\<close>

text \<open>
  \<^verbatim>\<open>set_typing_status\<close> does not look at \<open>chat_rooms\<close>: on a fresh manager it flags user 1
  as typing in chat 42, a room the user is not in.
\<close>

theorem set_typing_status_outside_room:
  "typing_subset init \<and> \<not> typing_subset (set_typing_status all_ok init 42 1 True)"
  by code_simp

lemma typing_subset_iff:
  "typing_subset s \<longleftrightarrow> (\<forall>c. set (entry (typing_users s) c) \<subseteq> set (entry (chat_rooms s) c))"
proof
  assume a: "typing_subset s"
  show "\<forall>c. set (entry (typing_users s) c) \<subseteq> set (entry (chat_rooms s) c)"
  proof
    fix c
    show "set (entry (typing_users s) c) \<subseteq> set (entry (chat_rooms s) c)"
    proof (cases "c \<in> set (map fst (typing_users s))")
      case True
      with a show ?thesis by (auto simp add: typing_subset_def list_all_iff)
    next
      case False
      then show ?thesis by (simp add: entry_no_key)
    qed
  qed
next
  assume "\<forall>c. set (entry (typing_users s) c) \<subseteq> set (entry (chat_rooms s) c)"
  then show "typing_subset s" by (auto simp add: typing_subset_def list_all_iff)
qed

lemma set_set_add [simp]: "set (set_add x xs) = insert x (set xs)"
  by (auto simp add: set_add_def)

lemma join_chat_room_entries:
  "entry (chat_rooms (join_chat_room s u c)) c'
     = (if c' = c then set_add u (entry (chat_rooms s) c) else entry (chat_rooms s) c')"
  "typing_users (join_chat_room s u c) = typing_users s"
  by (simp_all add: join_chat_room_def entry_update)

lemma set_typing_status_entries:
  "chat_rooms (set_typing_status fails s c u b) = chat_rooms s"
  "entry (typing_users (set_typing_status fails s c u b)) c'
     = (if c' = c then (if b then set_add u (entry (typing_users s) c)
                        else removeAll u (entry (typing_users s) c))
        else entry (typing_users s) c')"
  by (simp_all add: set_typing_status_def Let_def entry_update)

lemma join_preserves: "typing_subset s \<Longrightarrow> typing_subset (join_chat_room s u c)"
  by (auto simp add: typing_subset_iff join_chat_room_entries)

lemma set_typing_preserves:
  "typing_subset s \<Longrightarrow> \<not> b \<or> u \<in> set (entry (chat_rooms s) c) \<Longrightarrow>
     typing_subset (set_typing_status fails s c u b)"
  by (auto simp add: typing_subset_iff set_typing_status_entries)

lemma leave_preserves:
  assumes "typing_subset s"
  shows "typing_subset (leave_chat_room fails s u c)"
proof (cases "map_of (chat_rooms s) c")
  case None
  with assms show ?thesis by (simp add: leave_chat_room_def)
next
  case (Some us)
  note e = entry_Some[OF Some]
  show ?thesis
  proof (cases "u \<in> set us")
    case False
    with assms Some show ?thesis by (simp add: leave_chat_room_def)
  next
    case True
    let ?s1 = "s\<lparr>chat_rooms := AList.update c (removeAll u us) (chat_rooms s)\<rparr>"
    have r: "\<And>c'. set (entry (chat_rooms ?s1) c')
               = (if c' = c then set (entry (chat_rooms s) c) - {u} else set (entry (chat_rooms s) c'))"
      using e by (simp add: entry_update)
    have t: "typing_users ?s1 = typing_users s" by simp
    show ?thesis
    proof (cases "u \<in> set (entry (typing_users s) c)")
      case True
      with \<open>u \<in> set us\<close> Some
      have "leave_chat_room fails s u c = set_typing_status fails ?s1 c u False"
        by (simp add: leave_chat_room_def Let_def)
      with assms r show ?thesis
        by (auto simp add: typing_subset_iff set_typing_status_entries simp del: manager.simps)
    next
      case False
      with \<open>u \<in> set us\<close> Some have "leave_chat_room fails s u c = ?s1"
        by (simp add: leave_chat_room_def Let_def)
      with assms r False show ?thesis
        by (auto simp add: typing_subset_iff simp del: manager.simps)
    qed
  qed
qed

lemma disconnect_preserves:
  "typing_subset s \<Longrightarrow> disconnect fails s u w = Inr s' \<Longrightarrow> typing_subset s'"
  using disconnect_rooms[of fails s u w s']
  by (auto simp add: typing_subset_iff)

text \<open>
  C5, as amended. Joining, leaving and disconnecting preserve the inclusion of the typing
  users of every chat in the members of that chat, and so does \<^verbatim>\<open>set_typing_status\<close> when
  the flag is cleared or the user is in the room. Setting the flag for a user who is not in
  the room is accepted by the code, so the inclusion does not hold in every reachable
  state.
\<close>

theorem typing_subset_preserved:
  assumes "typing_subset s"
  shows "typing_subset (join_chat_room s u c)
       \<and> typing_subset (leave_chat_room fails s u c)
       \<and> (\<forall>s'. disconnect fails s u w = Inr s' \<longrightarrow> typing_subset s')
       \<and> ((\<not> is_typing \<or> u \<in> set (entry (chat_rooms s) c))
            \<longrightarrow> typing_subset (set_typing_status fails s c u is_typing))"
  using assms join_preserves leave_preserves disconnect_preserves set_typing_preserves
  by blast

theorem typing_subset_preserved_witness:
  "typing_subset typing_two_tabs
   \<and> typing_subset (join_chat_room typing_two_tabs 1 42)
   \<and> typing_subset (leave_chat_room all_ok typing_two_tabs 1 42)
   \<and> disconnect all_ok typing_two_tabs 1 (Some 10)
       = Inr (typing_two_tabs\<lparr>active_connections := [(1, [11]), (2, [20])],
                chat_rooms := [(42, [2])], typing_users := [(42, [])],
                sent := [(20, Typing 42 1 False)]\<rparr>)
   \<and> typing_subset (typing_two_tabs\<lparr>active_connections := [(1, [11]), (2, [20])],
                chat_rooms := [(42, [2])], typing_users := [(42, [])],
                sent := [(20, Typing 42 1 False)]\<rparr>)
   \<and> 1 \<in> set (entry (chat_rooms typing_two_tabs) 42)
   \<and> typing_subset (set_typing_status all_ok typing_two_tabs 42 1 True)"
proof -
  have a: "typing_subset typing_two_tabs" by code_simp
  have h: "disconnect all_ok typing_two_tabs 1 (Some 10)
       = Inr (typing_two_tabs\<lparr>active_connections := [(1, [11]), (2, [20])],
                chat_rooms := [(42, [2])], typing_users := [(42, [])],
                sent := [(20, Typing 42 1 False)]\<rparr>)" by code_simp
  have m: "1 \<in> set (entry (chat_rooms typing_two_tabs) 42)" by code_simp
  from typing_subset_preserved[OF a, of 1 42 all_ok "Some 10" True] a h m
  show ?thesis by simp
qed

end
